theory Spec2Isabelle
  imports Main
begin

section \<open>Python values, dictionaries and exceptions\<close>

text \<open>
  The values held by \<^verbatim>\<open>patient_data\<close>, by a CSV row and by a decoded JSON response.
  A dictionary is an association list in insertion order with distinct keys, as a
  Python \<^verbatim>\<open>dict\<close> is; a date is opaque (only \<^verbatim>\<open>strptime\<close> and
  \<^verbatim>\<open>relativedelta\<close>, both library code, look inside).
\<close>

datatype pyval =
    PNone
  | PBool bool
  | PInt int
  | PStr string
  | PDate nat
  | PList "pyval list"
  | PDict "(string \<times> pyval) list"

type_synonym pdict = "(string \<times> pyval) list"

text \<open>
  The exceptions the source raises itself or provokes in the interpreter, and
  \<open>Raised name\<close> for any exception thrown by a collaborator (the webdriver, the
  portal, the PDF reader, the rules engine).
\<close>

datatype error =
    ValueError
  | NameError
  | KeyError
  | IndexError
  | TypeError
  | AttributeError
  | Raised string

text \<open>\<^verbatim>\<open>d[k]\<close> on a dict: KeyError when the key is absent.\<close>

definition getitem :: "pdict \<Rightarrow> string \<Rightarrow> error + pyval" where
  "getitem d k = (case map_of d k of None \<Rightarrow> Inl KeyError | Some v \<Rightarrow> Inr v)"

text \<open>\<^verbatim>\<open>d[k] = v\<close> on a dict: overwrite in place, or append a new key.\<close>

fun setitem :: "string \<Rightarrow> pyval \<Rightarrow> pdict \<Rightarrow> pdict" where
  "setitem k v [] = [(k, v)]"
| "setitem k v ((k', v') # d) = (if k' = k then (k, v) # d else (k', v') # setitem k v d)"

text \<open>\<^verbatim>\<open>x[key]\<close> with a string key, on any value.\<close>

fun subscript_key :: "pyval \<Rightarrow> string \<Rightarrow> error + pyval" where
  "subscript_key (PDict d) k = getitem d k"
| "subscript_key _ k = Inl TypeError"

text \<open>
  \<^verbatim>\<open>x[0]\<close> on any value: the first element of a list, the first character of a
  string, IndexError when either is empty; a decoded JSON object has only string
  keys, so \<^verbatim>\<open>0\<close> is a missing key.
\<close>

fun subscript_0 :: "pyval \<Rightarrow> error + pyval" where
  "subscript_0 (PList []) = Inl IndexError"
| "subscript_0 (PList (x # xs)) = Inr x"
| "subscript_0 (PStr []) = Inl IndexError"
| "subscript_0 (PStr (c # cs)) = Inr (PStr [c])"
| "subscript_0 (PDict d) = Inl KeyError"
| "subscript_0 _ = Inl TypeError"

text \<open>\<^verbatim>\<open>for x in v\<close>: the items a value iterates over.\<close>

fun iter_items :: "pyval \<Rightarrow> error + pyval list" where
  "iter_items (PList xs) = Inr xs"
| "iter_items (PStr s) = Inr (map (\<lambda>c. PStr [c]) s)"
| "iter_items (PDict d) = Inr (map (\<lambda>kv. PStr (fst kv)) d)"
| "iter_items _ = Inl TypeError"

text \<open>\<^verbatim>\<open>sep.join(xs)\<close>.\<close>

fun join :: "string \<Rightarrow> string list \<Rightarrow> string" where
  "join sep [] = []"
| "join sep [x] = x"
| "join sep (x # y # ys) = x @ sep @ join sep (y # ys)"

section \<open>Collaborators and the call log\<close>

text \<open>One step of the Selenium session inside the accept-request procedure.\<close>

datatype wd_step =
    Get_index2
  | Send_keys string pyval
  | Click_js string
  | Click_css string
  | Find_elements_class string
  | Find_elements_xpath string
  | Item_click string

text \<open>
  Every call that leaves \<^verbatim>\<open>ProcessPatients\<close> is logged, in call order. A remote
  call is logged whether it returns or raises; a rule phase is logged with the
  actions it returned; \<open>Add_patient\<close> is \<^verbatim>\<open>Response.add_patient\<close>.
\<close>

datatype event =
    Post_login pyval pyval
  | Get_cerca_quadro pyval
  | Post_grid_autorizzazioni pyval
  | Selenium wd_step
  | Fetch_telerik_pdf pyval
  | Check_pdf pyval pyval pyval
  | Executed string "string list"
  | Add_patient pdict string
  | Quit
  | Send_mail_to_hospital

text \<open>The calls that reach the insurer's portal through the webdriver.\<close>

fun remote_call :: "event \<Rightarrow> bool" where
  "remote_call (Post_login u p) = True"
| "remote_call (Get_cerca_quadro pnr) = True"
| "remote_call (Post_grid_autorizzazioni pnr) = True"
| "remote_call (Selenium s) = True"
| "remote_call (Fetch_telerik_pdf pic) = True"
| "remote_call _ = False"

record engine_results =
  passed :: int
  actions :: "string list"

text \<open>
  The modules \<^verbatim>\<open>webdriver\<close>, \<^verbatim>\<open>pnr_status\<close>, \<^verbatim>\<open>rules_engine\<close>,
  \<^verbatim>\<open>read_pdf\<close>, \<^verbatim>\<open>telerik_bypass\<close> and \<^verbatim>\<open>response\<close> are imported by
  \<^verbatim>\<open>process.py\<close> and are not part of the sources at hand, and \<^verbatim>\<open>dateutil\<close>
  and \<^verbatim>\<open>datetime\<close> are libraries: what they answer is a parameter. Each answer is
  a function of the request; any of them may raise.
  \<^item> \<open>years_since b\<close> is \<^verbatim>\<open>relativedelta(datetime.now(), b).years\<close>;
  \<^item> \<open>strptime s fmt\<close> is \<^verbatim>\<open>datetime.strptime(s, fmt)\<close>;
  \<^item> \<open>engine_execute key context comments\<close> is \<^verbatim>\<open>engine.execute\<close>: the result
    dict and the comment list as the call leaves it;
  \<^item> \<open>get_pnr_status html\<close> is \<^verbatim>\<open>pnr_status_manager.get_pnr_status\<close>;
  \<^item> \<open>post_login\<close>, \<open>get_text\<close> (the \<^verbatim>\<open>.text\<close> of a GET of the reference's page) and
    \<open>post_json\<close> (the \<^verbatim>\<open>.json()\<close> of the POST of the identifier lookup) are the
    webdriver's requests; \<open>selenium\<close> is a step of the browser session, answering
    the texts of the elements found when it is a \<^verbatim>\<open>find_elements\<close>;
  \<^item> \<open>telerik_pdf\<close>, \<open>read_pdf\<close>, \<open>quit\<close>, \<open>send_mail\<close> are
    \<^verbatim>\<open>fetch_telerik_pdf\<close>, \<^verbatim>\<open>check_pdf\<close>, \<^verbatim>\<open>webdriver.quit\<close> and
    \<^verbatim>\<open>response.send_mail_to_hospital\<close>.
\<close>

record env =
  years_since :: "pyval \<Rightarrow> error + int"
  strptime :: "pyval \<Rightarrow> string \<Rightarrow> error + pyval"
  engine_execute :: "string \<Rightarrow> pdict \<Rightarrow> string list \<Rightarrow> error + (engine_results \<times> string list)"
  get_pnr_status :: "string \<Rightarrow> error + int"
  post_login :: "pyval \<Rightarrow> pyval \<Rightarrow> error + unit"
  get_text :: "pyval \<Rightarrow> error + string"
  post_json :: "pyval \<Rightarrow> error + pyval"
  selenium :: "wd_step \<Rightarrow> error + string list"
  telerik_pdf :: "pyval \<Rightarrow> error + unit"
  read_pdf :: "pyval \<Rightarrow> pyval \<Rightarrow> pyval \<Rightarrow> error + pyval"
  quit :: "error + unit"
  send_mail :: "error + unit"

section \<open>Sequencing calls that may raise\<close>

text \<open>
  A computation takes the log so far and returns its result, or the exception that
  ended it, with the log as it stands then: what was called before an exception stays
  called.
\<close>

type_synonym 'a io = "event list \<Rightarrow> (error + 'a) \<times> event list"

definition ret :: "'a \<Rightarrow> 'a io" where
  "ret x tr = (Inr x, tr)"

definition raise :: "error \<Rightarrow> 'a io" where
  "raise e tr = (Inl e, tr)"

definition lift :: "error + 'a \<Rightarrow> 'a io" where
  "lift r tr = (r, tr)"

definition call :: "event \<Rightarrow> error + 'a \<Rightarrow> 'a io" where
  "call ev r tr = (r, tr @ [ev])"

definition then_io :: "'a io \<Rightarrow> ('a \<Rightarrow> 'b io) \<Rightarrow> 'b io" where
  "then_io m f tr = (case m tr of (Inl e, tr') \<Rightarrow> (Inl e, tr') | (Inr x, tr') \<Rightarrow> f x tr')"

fun then_e :: "error + 'a \<Rightarrow> ('a \<Rightarrow> error + 'b) \<Rightarrow> error + 'b" where
  "then_e (Inl e) f = Inl e"
| "then_e (Inr x) f = f x"

section \<open>The identifier lookup\<close>

text \<open>
  \<^verbatim>\<open>_fetch_pic_from_database\<close>:
  \<^verbatim>\<open>result = self.webdriver.post(url_database, payload=payload)\<close>,
  \<^verbatim>\<open>patient_pic = result.json()["Data"][0]["NumeroAuth"]\<close>.
\<close>

definition pic_of_json :: "pyval \<Rightarrow> error + pyval" where
  "pic_of_json j =
     then_e (subscript_key j ''Data'') (\<lambda>d.
     then_e (subscript_0 d) (\<lambda>r.
     subscript_key r ''NumeroAuth''))"

definition fetch_pic_from_database :: "env \<Rightarrow> pyval \<Rightarrow> pyval io" where
  "fetch_pic_from_database env patient_pnr =
     then_io (call (Post_grid_autorizzazioni patient_pnr) (post_json env patient_pnr)) (\<lambda>j.
     lift (pic_of_json j))"

section \<open>The accept-request procedure\<close>

definition selenium_call :: "env \<Rightarrow> wd_step \<Rightarrow> string list io" where
  "selenium_call env s = call (Selenium s) (selenium env s)"

text \<open>
  The search of \<^verbatim>\<open>_check_request_accepted\<close> over \<^verbatim>\<open>codes_to_try\<close>: for each
  code in turn the \<^verbatim>\<open>k-item\<close> elements are read again and the first one whose
  text equals the code ends both loops; the outer \<^verbatim>\<open>else\<close> raises ValueError
  when every code has been tried. The element kept in \<^verbatim>\<open>item\<close> is returned as
  its text.
\<close>

fun find_code :: "env \<Rightarrow> pyval list \<Rightarrow> string io" where
  "find_code env [] = raise ValueError"
| "find_code env (current_code # codes) =
     then_io (selenium_call env (Find_elements_class ''k-item'')) (\<lambda>items.
     case find (\<lambda>text. PStr text = current_code) items of
       Some item \<Rightarrow> ret item
     | None \<Rightarrow> find_code env codes)"

definition codes_to_try :: "pyval \<Rightarrow> pyval list" where
  "codes_to_try code_prestazioni =
     [code_prestazioni, PStr ''Visite specialistiche'', PStr ''Altre prestazioni'']"

text \<open>\<^verbatim>\<open>find_elements(...)[0].text\<close>: IndexError when nothing was found.\<close>

definition first_text :: "string list \<Rightarrow> error + string" where
  "first_text ts = (case ts of [] \<Rightarrow> Inl IndexError | t # _ \<Rightarrow> Inr t)"

definition check_request_accepted :: "env \<Rightarrow> pyval \<Rightarrow> pyval \<Rightarrow> pyval \<Rightarrow> unit io" where
  "check_request_accepted env patient_pnr patient_esame code_prestazioni =
     then_io (selenium_call env Get_index2) (\<lambda>_.
     then_io (selenium_call env (Send_keys ''PNR'' patient_pnr)) (\<lambda>_.
     then_io (selenium_call env (Click_js ''cercaQuadro'')) (\<lambda>_.
     then_io (selenium_call env (Click_js ''btnQuadroOK'')) (\<lambda>_.
     then_io (selenium_call env (Click_css ''.k-widget.k-multiselect.k-multiselect-clearable'')) (\<lambda>_.
     then_io (find_code env (codes_to_try code_prestazioni)) (\<lambda>item.
     then_io (selenium_call env (Item_click item)) (\<lambda>_.
     then_io (selenium_call env (Click_js ''btnVerifica'')) (\<lambda>_.
     then_io (selenium_call env (Find_elements_xpath ''//h4/following-sibling::p'')) (\<lambda>found.
     then_io (lift (first_text found)) (\<lambda>message.
     then_io (selenium_call env (Send_keys ''NoteAuth'' patient_esame)) (\<lambda>_.
     then_io (selenium_call env (Click_js ''cercaQuadro'')) (\<lambda>_.
     then_io (selenium_call env (Click_js ''btnIstruisci'')) (\<lambda>_.
     ret ())))))))))))))"

section \<open>One reference\<close>

definition fetch_patient_data :: "env \<Rightarrow> pyval \<Rightarrow> string io" where
  "fetch_patient_data env patient_pnr =
     call (Get_cerca_quadro patient_pnr) (get_text env patient_pnr)"

text \<open>
  \<^verbatim>\<open>engine.execute(key, context, comments)\<close>: the result dict, and \<^verbatim>\<open>comments\<close>
  as the engine leaves the list.
\<close>

definition execute :: "env \<Rightarrow> string \<Rightarrow> pdict \<Rightarrow> string list \<Rightarrow> (engine_results \<times> string list) io" where
  "execute env key context comments tr =
     (case engine_execute env key context comments of
        Inl e \<Rightarrow> (Inl e, tr)
      | Inr (res, comments') \<Rightarrow> (Inr (res, comments'), tr @ [Executed key (actions res)]))"

text \<open>
  \<^verbatim>\<open>rule_engine.Rule("pnr_status in [1,2]")\<close> and
  \<^verbatim>\<open>rule_engine.Rule("pnr_status == 1")\<close>, evaluated on \<^verbatim>\<open>patient_data\<close>.
\<close>

definition pnr_status_in_1_2 :: "pdict \<Rightarrow> bool" where
  "pnr_status_in_1_2 patient_data =
     (map_of patient_data ''pnr_status'' = Some (PInt 1)
      \<or> map_of patient_data ''pnr_status'' = Some (PInt 2))"

definition pnr_status_eq_1 :: "pdict \<Rightarrow> bool" where
  "pnr_status_eq_1 patient_data = (map_of patient_data ''pnr_status'' = Some (PInt 1))"

text \<open>
  \<^verbatim>\<open>process_pnr\<close>: the patient and the comment list go in and come back; an
  exception raised on the way leaves through every caller, as nothing here catches
  one.
\<close>

definition process_pnr :: "env \<Rightarrow> pdict \<Rightarrow> pyval \<Rightarrow> string list \<Rightarrow> (pdict \<times> string list) io" where
  "process_pnr env patient_data0 pnr comments =
     then_io (fetch_patient_data env pnr) (\<lambda>html_page_identify.
     then_io (lift (get_pnr_status env html_page_identify)) (\<lambda>status.
     let patient_data = setitem ''pnr_status'' (PInt status) patient_data0 in
     then_io
       (if pnr_status_in_1_2 patient_data then
          then_io
            (if pnr_status_eq_1 patient_data then
               then_io (lift (getitem patient_data ''esame'')) (\<lambda>esame.
               then_io (lift (getitem patient_data ''prestazioni'')) (\<lambda>prestazioni.
               check_request_accepted env pnr esame prestazioni))
             else ret ()) (\<lambda>_.
          then_io (fetch_pic_from_database env pnr) (\<lambda>pic.
          let patient_data = setitem ''pic'' pic patient_data in
          then_io (call (Fetch_telerik_pdf pic) (telerik_pdf env pic)) (\<lambda>_.
          then_io (lift (getitem patient_data ''insurance_name'')) (\<lambda>insurance_name.
          then_io (lift (getitem patient_data ''codice_fiscale'')) (\<lambda>fiscal_code.
          then_io (call (Check_pdf pic insurance_name fiscal_code)
                     (read_pdf env pic insurance_name fiscal_code)) (\<lambda>error_codes.
          then_io (execute env ''rules_context.patient_data.rules'' patient_data comments)
            (\<lambda>(_, comments).
          then_io (execute env ''rules_context.pdf_analysis.rules''
                     [(''error_codes'', error_codes)] comments)
            (\<lambda>(_, comments).
          ret (patient_data, comments)))))))))
        else ret (setitem ''pic'' PNone patient_data, comments))
       (\<lambda>(patient_data, comments).
     then_io (execute env ''rules_context.webportal.rules'' patient_data comments)
       (\<lambda>(_, comments).
     ret (patient_data, comments)))))"

section \<open>One patient\<close>

text \<open>The loop \<^verbatim>\<open>for pnr in patient_data["pnr"]\<close> of \<^verbatim>\<open>process_patient\<close>.\<close>

fun for_pnr :: "env \<Rightarrow> pyval list \<Rightarrow> pdict \<Rightarrow> string list \<Rightarrow> (pdict \<times> string list) io" where
  "for_pnr env [] patient_data comments = ret (patient_data, comments)"
| "for_pnr env (pnr # pnrs) patient_data comments =
     then_io (process_pnr env patient_data pnr comments) (\<lambda>(patient_data, comments).
     for_pnr env pnrs patient_data comments)"

definition add_patient :: "pdict \<Rightarrow> string \<Rightarrow> unit io" where
  "add_patient patient_data comments = call (Add_patient patient_data comments) (Inr ())"

text \<open>
  \<^verbatim>\<open>process_patient\<close>. The comment list starts empty; building the engine and the
  status manager (\<^verbatim>\<open>RULES_ENGINE(self.config_yaml)\<close>,
  \<^verbatim>\<open>PNR_STATUS_MANAGER("config.yaml")\<close>) is taken to succeed and calls no
  collaborator.
\<close>

definition process_patient :: "env \<Rightarrow> pdict \<Rightarrow> unit io" where
  "process_patient env patient_data0 =
     then_io (lift (getitem patient_data0 ''birthday'')) (\<lambda>birthday.
     then_io (lift (years_since env birthday)) (\<lambda>age.
     let patient_data = setitem ''age'' (PInt age) patient_data0 in
     then_io (execute env ''rules_context.deal_breakers.rules'' patient_data [])
       (\<lambda>(engine_results, comments).
     if passed engine_results > 0 then
       add_patient (setitem ''pic'' PNone patient_data)
         (join '' / '' (actions engine_results))
     else
       then_io (lift (getitem patient_data ''pnr'')) (\<lambda>pnrs.
       then_io (lift (iter_items pnrs)) (\<lambda>pnrs.
       then_io (for_pnr env pnrs patient_data comments) (\<lambda>(patient_data, comments).
       add_patient patient_data (join '' / '' comments)))))))"

section \<open>The input file\<close>

text \<open>
  An entry of \<^verbatim>\<open>config_yaml["mapping"]["csv"]\<close>: the keys \<^verbatim>\<open>coltype\<close>,
  \<^verbatim>\<open>var_name\<close> and \<^verbatim>\<open>colname\<close> are present, \<^verbatim>\<open>date_format\<close> may be
  missing.
\<close>

record col_item =
  coltype :: string
  var_name :: string
  colname :: string
  date_format :: "string option"

text \<open>\<^verbatim>\<open>str.lower\<close>, on ASCII.\<close>

definition lower_char :: "char \<Rightarrow> char" where
  "lower_char c =
     (if 65 \<le> (of_char c :: nat) \<and> (of_char c :: nat) \<le> 90
      then char_of ((of_char c :: nat) + 32) else c)"

definition lower :: "string \<Rightarrow> string" where
  "lower s = map lower_char s"

text \<open>\<^verbatim>\<open>v.lower()\<close> on a value of a row: a string has the method, None does not.\<close>

fun lower_method :: "pyval \<Rightarrow> error + string" where
  "lower_method (PStr s) = Inr (lower s)"
| "lower_method _ = Inl AttributeError"

text \<open>
  One entry of the mapping on one row. The name \<^verbatim>\<open>ast\<close> is bound by no import of
  the module, so the \<^verbatim>\<open>"array"\<close> branch raises NameError when it looks the name up,
  before \<^verbatim>\<open>row[item["colname"]]\<close> is read.
\<close>

definition parse_item :: "env \<Rightarrow> pdict \<Rightarrow> col_item \<Rightarrow> pdict \<Rightarrow> error + pdict" where
  "parse_item env row item item_dict =
     (if coltype item = ''string'' then
        then_e (getitem row (colname item)) (\<lambda>v.
        Inr (setitem (var_name item) v item_dict))
      else if coltype item = ''array'' then
        Inl NameError
      else if coltype item = ''bool'' then
        then_e (getitem row (colname item)) (\<lambda>v.
        then_e (lower_method v) (\<lambda>s.
        Inr (setitem (var_name item) (PBool (s = ''true'')) item_dict)))
      else if coltype item = ''date'' then
        then_e (getitem row (colname item)) (\<lambda>v.
        then_e (case date_format item of None \<Rightarrow> Inl KeyError | Some fmt \<Rightarrow> Inr fmt) (\<lambda>fmt.
        then_e (strptime env v fmt) (\<lambda>d.
        Inr (setitem (var_name item) d item_dict))))
      else Inl ValueError)"

fun parse_row :: "env \<Rightarrow> pdict \<Rightarrow> col_item list \<Rightarrow> pdict \<Rightarrow> error + pdict" where
  "parse_row env row [] item_dict = Inr item_dict"
| "parse_row env row (item # items) item_dict =
     then_e (parse_item env row item item_dict) (\<lambda>item_dict.
     parse_row env row items item_dict)"

text \<open>
  \<^verbatim>\<open>_parse_input_from_hospital\<close>, on the rows \<^verbatim>\<open>csv.DictReader\<close> yields for the
  file.
\<close>

fun parse_input_from_hospital :: "env \<Rightarrow> col_item list \<Rightarrow> pdict list \<Rightarrow> error + pdict list" where
  "parse_input_from_hospital env mapping [] = Inr []"
| "parse_input_from_hospital env mapping (row # rows) =
     then_e (parse_row env row mapping []) (\<lambda>item_dict.
     then_e (parse_input_from_hospital env mapping rows) (\<lambda>element_array.
     Inr (item_dict # element_array)))"

section \<open>The batch\<close>

text \<open>The fields of a \<^verbatim>\<open>ProcessPatients\<close> object that the batch reads.\<close>

record process_patients_self =
  username :: pyval
  password :: pyval
  mapping_csv :: "col_item list"
  file_input :: "pdict list"

definition login :: "env \<Rightarrow> process_patients_self \<Rightarrow> unit io" where
  "login env self =
     (if username self = PStr [] \<or> password self = PStr [] then raise ValueError
      else
        then_io (call (Post_login (username self) (password self))
                   (post_login env (username self) (password self))) (\<lambda>_.
        call (Post_login (username self) (password self))
          (post_login env (username self) (password self))))"

text \<open>The loop \<^verbatim>\<open>for patient in patients\<close> of \<^verbatim>\<open>process_patients\<close>.\<close>

fun for_patient :: "env \<Rightarrow> pdict list \<Rightarrow> unit io" where
  "for_patient env [] = ret ()"
| "for_patient env (patient # patients) =
     then_io (process_patient env patient) (\<lambda>_. for_patient env patients)"

definition process_patients :: "env \<Rightarrow> process_patients_self \<Rightarrow> unit io" where
  "process_patients env self =
     then_io (lift (parse_input_from_hospital env (mapping_csv self) (file_input self)))
       (\<lambda>patients.
     then_io (login env self) (\<lambda>_.
     then_io (for_patient env patients) (\<lambda>_.
     then_io (call Quit (quit env)) (\<lambda>_.
     call Send_mail_to_hospital (send_mail env)))))"

text \<open>
  \<^verbatim>\<open>fetch_env_vars\<close>: \<^verbatim>\<open>os.getenv\<close> answers None for a variable that is not
  set.
\<close>

definition getenv :: "(string \<Rightarrow> string option) \<Rightarrow> string \<Rightarrow> pyval" where
  "getenv environ name = (case environ name of None \<Rightarrow> PNone | Some v \<Rightarrow> PStr v)"

definition fetch_env_vars :: "(string \<Rightarrow> string option) \<Rightarrow> pdict" where
  "fetch_env_vars environ =
     [(''HEALTHFORCE_XWYZ_USERNAME'', getenv environ ''HEALTHFORCE_XWYZ_USERNAME''),
      (''HEALTHFORCE_XWYZ_PASSWORD'', getenv environ ''HEALTHFORCE_XWYZ_PASSWORD'')]"

text \<open>\<^verbatim>\<open>d.get(k)\<close>: None when the key is absent.\<close>

definition dict_get :: "pdict \<Rightarrow> string \<Rightarrow> pyval" where
  "dict_get d k = (case map_of d k of None \<Rightarrow> PNone | Some v \<Rightarrow> v)"

text \<open>
  \<^verbatim>\<open>main\<close> of \<^verbatim>\<open>aws/__main__.py\<close>, from the environment variables on: the
  credentials are read with \<^verbatim>\<open>fetch_env_vars\<close> and handed to
  \<^verbatim>\<open>ProcessPatients\<close>, whose \<^verbatim>\<open>process_patients\<close> is run.
\<close>

definition main :: "env \<Rightarrow> (string \<Rightarrow> string option) \<Rightarrow> col_item list \<Rightarrow> pdict list \<Rightarrow> unit io" where
  "main env environ mapping rows =
     (let env_variables = fetch_env_vars environ in
      process_patients env
        \<lparr>username = dict_get env_variables ''HEALTHFORCE_XWYZ_USERNAME'',
         password = dict_get env_variables ''HEALTHFORCE_XWYZ_PASSWORD'',
         mapping_csv = mapping,
         file_input = rows\<rparr>)"

section \<open>The rules engine\<close>

text \<open>
  Modelled from the spec: a rule of the rule set, which the module
  \<^verbatim>\<open>rules_engine\<close> (not among the sources) reads from the configuration. A rule is
  a condition over the named fields of the context and an ordered list of action
  strings; a condition that refers to an undefined field does not evaluate (None).
\<close>

record rule =
  condition :: "pdict \<Rightarrow> bool option"
  rule_actions :: "string list"

type_synonym rule_set = "(string \<times> rule list) list"

text \<open>
  Modelled from the spec: the rules of a phase that match a context. Every rule is
  evaluated, none short-circuits another; a rule whose condition does not evaluate
  is skipped and counts as not matching.
\<close>

definition matching :: "rule list \<Rightarrow> pdict \<Rightarrow> rule list" where
  "matching rules context = filter (\<lambda>r. condition r context = Some True) rules"

text \<open>
  Modelled from the spec: \<^verbatim>\<open>RULES_ENGINE.execute\<close> of the module
  \<^verbatim>\<open>rules_engine\<close>, which is not among the sources. Each rule whose condition is
  true counts in \<open>passed\<close> and has its actions appended, in rule order, both to the
  returned actions and to the audit trail. The context is not changed. A phase key
  absent from the rule set is a configuration error.
\<close>

definition rules_engine_execute ::
  "rule_set \<Rightarrow> string \<Rightarrow> pdict \<Rightarrow> string list \<Rightarrow> error + (engine_results \<times> string list)" where
  "rules_engine_execute rs key context audit_trail =
     (case map_of rs key of
        None \<Rightarrow> Inl (Raised ''ConfigurationError'')
      | Some rules \<Rightarrow>
          Inr (\<lparr>passed = int (length (matching rules context)),
                actions = concat (map rule_actions (matching rules context))\<rparr>,
               audit_trail @ concat (map rule_actions (matching rules context))))"

section \<open>Reading the call log\<close>

text \<open>The records handed to \<^verbatim>\<open>Response.add_patient\<close>, in order.\<close>

fun records :: "event list \<Rightarrow> (pdict \<times> string) list" where
  "records [] = []"
| "records (Add_patient patient_data comments # tr) = (patient_data, comments) # records tr"
| "records (_ # tr) = records tr"

text \<open>The action strings of the rule phases executed, in order of execution.\<close>

fun executed_actions :: "event list \<Rightarrow> string list" where
  "executed_actions [] = []"
| "executed_actions (Executed key acts # tr) = acts @ executed_actions tr"
| "executed_actions (_ # tr) = executed_actions tr"


fun is_selenium :: "event \<Rightarrow> bool" where
  "is_selenium (Selenium s) = True"
| "is_selenium _ = False"

fun is_add_patient :: "event \<Rightarrow> bool" where
  "is_add_patient (Add_patient patient_data comments) = True"
| "is_add_patient _ = False"

text \<open>No event with \<open>Q\<close> comes before the first event with \<open>P\<close>.\<close>

definition preceded_by :: "('a \<Rightarrow> bool) \<Rightarrow> ('a \<Rightarrow> bool) \<Rightarrow> 'a list \<Rightarrow> bool" where
  "preceded_by P Q xs = list_all (\<lambda>x. \<not> Q x) (takeWhile (\<lambda>x. \<not> P x) xs)"

text \<open>
  The status a reference resolves to: the page \<^verbatim>\<open>fetch_patient_data\<close> gets, read
  by \<^verbatim>\<open>get_pnr_status\<close>.
\<close>

definition resolve_status :: "env \<Rightarrow> pyval \<Rightarrow> error + int" where
  "resolve_status env pnr = then_e (get_text env pnr) (get_pnr_status env)"

text \<open>
  The fields of a patient that processing never assigns: everything but
  \<^verbatim>\<open>age\<close>, \<^verbatim>\<open>pnr_status\<close> and \<^verbatim>\<open>pic\<close>.
\<close>

definition input_fields :: "pdict \<Rightarrow> pdict" where
  "input_fields d = filter (\<lambda>kv. fst kv \<notin> set [''age'', ''pnr_status'', ''pic'']) d"

text \<open>The first of the codes that is the text of an offered item.\<close>

definition first_offered :: "string list \<Rightarrow> pyval list \<Rightarrow> pyval option" where
  "first_offered items codes = find (\<lambda>code. code \<in> set (map PStr items)) codes"

section \<open>A portal, a rule set and patients to run the code on\<close>

definition int_field :: "string \<Rightarrow> (int \<Rightarrow> bool) \<Rightarrow> pdict \<Rightarrow> bool option" where
  "int_field name p context =
     (case map_of context name of Some (PInt n) \<Rightarrow> Some (p n) | _ \<Rightarrow> None)"

definition list_field :: "string \<Rightarrow> (pyval list \<Rightarrow> bool) \<Rightarrow> pdict \<Rightarrow> bool option" where
  "list_field name p context =
     (case map_of context name of Some (PList xs) \<Rightarrow> Some (p xs) | _ \<Rightarrow> None)"

definition example_rules :: rule_set where
  "example_rules =
     [(''rules_context.deal_breakers.rules'',
         [\<lparr>condition = int_field ''age'' (\<lambda>a. a < 18), rule_actions = [''minor'']\<rparr>]),
      (''rules_context.patient_data.rules'',
         [\<lparr>condition = int_field ''age'' (\<lambda>a. 65 \<le> a),
           rule_actions = [''senior'', ''check exemption'']\<rparr>]),
      (''rules_context.pdf_analysis.rules'',
         [\<lparr>condition = list_field ''error_codes'' (\<lambda>xs. xs \<noteq> []),
           rule_actions = [''pdf invalid'']\<rparr>]),
      (''rules_context.webportal.rules'',
         [\<lparr>condition = int_field ''pnr_status'' (\<lambda>s. s = 1),
           rule_actions = [''request accepted'']\<rparr>,
          \<lparr>condition = int_field ''pnr_status'' (\<lambda>s. s \<noteq> 1 \<and> s \<noteq> 2),
           rule_actions = [''not actionable'']\<rparr>])]"

definition example_record :: "string \<Rightarrow> pyval" where
  "example_record pic = PDict [(''Data'', PList [PDict [(''NumeroAuth'', PStr pic)]])]"

text \<open>
  A portal where reference \<^verbatim>\<open>A\<close> is already approved, \<^verbatim>\<open>B\<close> awaits manual
  approval, \<^verbatim>\<open>X\<close> cannot be reached and any other is not actionable; it offers the
  single category "Altre prestazioni"; the clock gives the age of someone born in
  year \<open>y\<close> as \<open>2024 - y\<close>.
\<close>

definition example_env :: env where
  "example_env =
     \<lparr>years_since = (\<lambda>b. case b of PDate y \<Rightarrow> Inr (2024 - int y) | _ \<Rightarrow> Inl TypeError),
      strptime =
        (\<lambda>v fmt. if v = PStr ''2014'' then Inr (PDate 2014)
                 else if v = PStr ''1950'' then Inr (PDate 1950)
                 else Inl ValueError),
      engine_execute = rules_engine_execute example_rules,
      get_pnr_status =
        (\<lambda>html. Inr (if html = ''approved'' then 2 else if html = ''awaiting'' then 1 else 0)),
      post_login = (\<lambda>u p. Inr ()),
      get_text =
        (\<lambda>pnr. if pnr = PStr ''A'' then Inr ''approved''
               else if pnr = PStr ''B'' then Inr ''awaiting''
               else if pnr = PStr ''X'' then Inl (Raised ''RemoteCommunicationError'')
               else Inr ''unknown''),
      post_json =
        (\<lambda>pnr. if pnr = PStr ''A'' then Inr (example_record ''PIC-A'')
               else if pnr = PStr ''B'' then Inr (example_record ''PIC-B'')
               else Inr (PDict [(''Data'', PList [])])),
      selenium =
        (\<lambda>s. case s of
                Find_elements_class c \<Rightarrow> Inr [''Altre prestazioni'']
              | Find_elements_xpath x \<Rightarrow> Inr [''ok'']
              | _ \<Rightarrow> Inr []),
      telerik_pdf = (\<lambda>pic. Inr ()),
      read_pdf = (\<lambda>pic insurance_name fiscal_code. Inr (PList [PInt 7])),
      quit = Inr (),
      send_mail = Inr ()\<rparr>"

definition example_patient :: "string \<Rightarrow> nat \<Rightarrow> pyval \<Rightarrow> pdict" where
  "example_patient name born pnr =
     [(''name'', PStr name),
      (''birthday'', PDate born),
      (''insurance_name'', PStr ''XWYZ''),
      (''codice_fiscale'', PStr ''CF''),
      (''esame'', PStr ''RX''),
      (''prestazioni'', PStr ''Radiologia''),
      (''pnr'', pnr)]"

text \<open>
  The same patients as rows of the input file, with their mapping: every column a
  string but the birthday, so that the references of a row are the characters of its
  \<^verbatim>\<open>pnr\<close> column.
\<close>

definition example_row :: "string \<Rightarrow> string \<Rightarrow> string \<Rightarrow> pdict" where
  "example_row name birthday pnr =
     [(''name'', PStr name),
      (''birthday'', PStr birthday),
      (''insurance_name'', PStr ''XWYZ''),
      (''codice_fiscale'', PStr ''CF''),
      (''esame'', PStr ''RX''),
      (''prestazioni'', PStr ''Radiologia''),
      (''pnr'', PStr pnr)]"

definition string_column :: "string \<Rightarrow> col_item" where
  "string_column c = \<lparr>coltype = ''string'', var_name = c, colname = c, date_format = None\<rparr>"

definition example_mapping :: "col_item list" where
  "example_mapping =
     [string_column ''name'',
      \<lparr>coltype = ''date'', var_name = ''birthday'', colname = ''birthday'',
       date_format = Some ''%Y''\<rparr>,
      string_column ''insurance_name'',
      string_column ''codice_fiscale'',
      string_column ''esame'',
      string_column ''prestazioni'',
      string_column ''pnr'']"

definition example_self :: "pdict list \<Rightarrow> process_patients_self" where
  "example_self rows =
     \<lparr>username = PStr ''user'', password = PStr ''secret'',
      mapping_csv = example_mapping, file_input = rows\<rparr>"

text \<open>
  A batch of three: a minor, an adult whose only reference cannot be reached, and an
  adult whose reference is already approved.
\<close>

definition example_rows :: "pdict list" where
  "example_rows =
     [example_row ''Ada'' ''2014'' ''A'',
      example_row ''Bob'' ''1950'' ''X'',
      example_row ''Cy'' ''1950'' ''A'']"


text \<open>The same portal offering none of the three categories that are tried.\<close>

definition example_env_no_category :: env where
  "example_env_no_category =
     example_env\<lparr>selenium :=
       (\<lambda>s. case s of
               Find_elements_class c \<Rightarrow> Inr [''Ricovero'', ''Odontoiatria'']
             | Find_elements_xpath x \<Rightarrow> Inr [''ok'']
             | _ \<Rightarrow> Inr [])\<rparr>"

text \<open>The steps of \<^verbatim>\<open>_check_request_accepted\<close> that come before the search.\<close>

definition steps_before_search :: "pyval \<Rightarrow> wd_step list" where
  "steps_before_search patient_pnr =
     [Get_index2,
      Send_keys ''PNR'' patient_pnr,
      Click_js ''cercaQuadro'',
      Click_js ''btnQuadroOK'',
      Click_css ''.k-widget.k-multiselect.k-multiselect-clearable'']"

section \<open>Properties of engines, computations and events\<close>

text \<open>
  Modelled from the spec: what it says of the audit trail, as a property of an
  engine. The comment list a call leaves is the one it was given followed by the
  actions it returns.
\<close>

definition appends_actions :: "env \<Rightarrow> bool" where
  "appends_actions env \<longleftrightarrow>
     (\<forall>key context comments res comments'.
        engine_execute env key context comments = Inr (res, comments') \<longrightarrow>
        comments' = comments @ actions res)"

text \<open>A computation only appends to the log, and only events with \<open>P\<close>.\<close>

definition logs_only :: "(event \<Rightarrow> bool) \<Rightarrow> 'a io \<Rightarrow> bool" where
  "logs_only P m \<longleftrightarrow> (\<forall>tr. \<exists>new. snd (m tr) = tr @ new \<and> list_all P new)"

text \<open>Events other than a finalized record and the closing of the session.\<close>

definition quiet :: "event \<Rightarrow> bool" where
  "quiet e \<longleftrightarrow> \<not> is_add_patient e \<and> e \<noteq> Quit"

section \<open>Lemmas\<close>

subsection \<open>Running a sequence of calls\<close>

lemma then_io_Inr [simp]:
  "then_io m f tr = (Inr y, tr'') \<longleftrightarrow> (\<exists>x tr'. m tr = (Inr x, tr') \<and> f x tr' = (Inr y, tr''))"
  by (auto simp: then_io_def split: prod.splits sum.splits)

lemma then_io_Inl [simp]:
  "then_io m f tr = (Inl e, tr'') \<longleftrightarrow>
     m tr = (Inl e, tr'') \<or> (\<exists>x tr'. m tr = (Inr x, tr') \<and> f x tr' = (Inl e, tr''))"
  by (auto simp: then_io_def split: prod.splits sum.splits)

lemma then_e_Inr [simp]:
  "then_e r f = Inr y \<longleftrightarrow> (\<exists>x. r = Inr x \<and> f x = Inr y)"
  by (cases r) auto

lemma then_e_Inl [simp]:
  "then_e r f = Inl e \<longleftrightarrow> r = Inl e \<or> (\<exists>x. r = Inr x \<and> f x = Inl e)"
  by (cases r) auto

lemma lift_eq [simp]: "lift r tr = (r', tr') \<longleftrightarrow> r = r' \<and> tr' = tr"
  by (auto simp: lift_def)

lemma ret_eq [simp]: "ret x tr = (r, tr') \<longleftrightarrow> r = Inr x \<and> tr' = tr"
  by (auto simp: ret_def)

lemma raise_eq [simp]: "raise e tr = (r, tr') \<longleftrightarrow> r = Inl e \<and> tr' = tr"
  by (auto simp: raise_def)

lemma call_eq [simp]: "call ev r tr = (r', tr') \<longleftrightarrow> r = r' \<and> tr' = tr @ [ev]"
  by (auto simp: call_def)

lemma execute_Inr [simp]:
  "execute env key context comments tr = (Inr (res, comments'), tr') \<longleftrightarrow>
     engine_execute env key context comments = Inr (res, comments')
     \<and> tr' = tr @ [Executed key (actions res)]"
  by (auto simp: execute_def split: sum.splits)

lemma execute_Inl [simp]:
  "execute env key context comments tr = (Inl e, tr') \<longleftrightarrow>
     engine_execute env key context comments = Inl e \<and> tr' = tr"
  by (auto simp: execute_def split: sum.splits)

subsection \<open>What a computation logs\<close>

lemma logs_onlyD:
  "logs_only P m \<Longrightarrow> m tr = (r, tr') \<Longrightarrow> \<exists>new. tr' = tr @ new \<and> list_all P new"
  unfolding logs_only_def by (metis snd_conv)

lemma logs_only_ret [intro!, simp]: "logs_only P (ret x)"
  by (simp add: logs_only_def ret_def)

lemma logs_only_raise [intro!, simp]: "logs_only P (raise e)"
  by (simp add: logs_only_def raise_def)

lemma logs_only_lift [intro!, simp]: "logs_only P (lift r)"
  by (simp add: logs_only_def lift_def)

lemma logs_only_call [intro!]: "P ev \<Longrightarrow> logs_only P (call ev r)"
  by (simp add: logs_only_def call_def)

lemma logs_only_then_io [intro!]:
  assumes "logs_only P m" and "\<And>x. logs_only P (f x)"
  shows "logs_only P (then_io m f)"
  unfolding logs_only_def
proof
  fix tr
  obtain r tr1 where m: "m tr = (r, tr1)" by (cases "m tr")
  from logs_onlyD [OF assms(1) m] obtain n1 where n1: "tr1 = tr @ n1" "list_all P n1" by blast
  show "\<exists>new. snd (then_io m f tr) = tr @ new \<and> list_all P new"
  proof (cases r)
    case (Inl e)
    with m n1 show ?thesis by (auto simp: then_io_def)
  next
    case (Inr x)
    obtain r2 tr2 where f: "f x tr1 = (r2, tr2)" by (cases "f x tr1")
    from logs_onlyD [OF assms(2) f] obtain n2 where n2: "tr2 = tr1 @ n2" "list_all P n2" by blast
    with m n1 Inr f show ?thesis by (auto simp: then_io_def)
  qed
qed

lemma logs_only_execute [intro!]:
  "(\<And>acts. P (Executed key acts)) \<Longrightarrow> logs_only P (execute env key context comments)"
  by (auto simp: logs_only_def execute_def split: sum.splits)

lemma logs_only_if [intro!]:
  "(c \<Longrightarrow> logs_only P m) \<Longrightarrow> (\<not> c \<Longrightarrow> logs_only P n) \<Longrightarrow> logs_only P (if c then m else n)"
  by simp

lemma logs_only_case_prod [intro!]:
  "(\<And>a b. logs_only P (f a b)) \<Longrightarrow> logs_only P (case x of (a, b) \<Rightarrow> f a b)"
  by (cases x) simp

lemma logs_only_mono:
  "logs_only P m \<Longrightarrow> (\<And>e. P e \<Longrightarrow> Q e) \<Longrightarrow> logs_only Q m"
  unfolding logs_only_def by (metis (mono_tags, lifting) list.pred_mono_strong)

lemma logs_only_find_code: "logs_only is_selenium (find_code env codes)"
  by (induction codes) (auto simp: selenium_call_def split: option.splits)

lemma logs_only_check_request_accepted:
  "logs_only is_selenium (check_request_accepted env pnr esame code)"
  unfolding check_request_accepted_def selenium_call_def
  by (intro logs_only_then_io logs_only_call logs_only_find_code logs_only_lift logs_only_ret)
     simp_all

lemma then_io_call_starts:
  assumes "\<And>x. logs_only P (f x)" and "then_io (call ev r0) f tr = (r, tr')"
  shows "\<exists>rest. tr' = tr @ ev # rest \<and> list_all P rest"
proof (cases r0)
  case (Inl e)
  with assms(2) show ?thesis by (auto simp: then_io_def call_def)
next
  case (Inr x)
  with assms(2) have "f x (tr @ [ev]) = (r, tr')" by (simp add: then_io_def call_def)
  from logs_onlyD [OF assms(1) this] show ?thesis by auto
qed

lemma check_request_accepted_starts:
  assumes "check_request_accepted env pnr esame code tr = (r, tr')"
  shows "\<exists>rest. tr' = tr @ Selenium Get_index2 # rest \<and> list_all is_selenium rest"
  using assms unfolding check_request_accepted_def selenium_call_def
  by (rule then_io_call_starts [rotated])
     (intro logs_only_then_io logs_only_call logs_only_find_code [unfolded selenium_call_def]
        logs_only_lift logs_only_ret, simp_all)

subsection \<open>Dictionaries, the log and one reference\<close>

lemma getitem_setitem [simp]:
  "getitem (setitem k v d) k' = (if k' = k then Inr v else getitem d k')"
  by (induction d) (auto simp: getitem_def)

lemma map_of_setitem [simp]:
  "map_of (setitem k v d) k' = (if k' = k then Some v else map_of d k')"
  by (induction d) auto

lemma fetch_pic_from_database_eq [simp]:
  "fetch_pic_from_database env pnr tr = (r, tr') \<longleftrightarrow>
     then_e (post_json env pnr) pic_of_json = r \<and> tr' = tr @ [Post_grid_autorizzazioni pnr]"
  by (cases "post_json env pnr")
     (auto simp: fetch_pic_from_database_def then_io_def call_def lift_def)

lemma fetch_patient_data_eq [simp]:
  "fetch_patient_data env pnr tr = (r, tr') \<longleftrightarrow>
     get_text env pnr = r \<and> tr' = tr @ [Get_cerca_quadro pnr]"
  by (auto simp: fetch_patient_data_def)

lemma status_tests [simp]:
  "pnr_status_in_1_2 (setitem ''pnr_status'' (PInt s) d) \<longleftrightarrow> s = 1 \<or> s = 2"
  "pnr_status_eq_1 (setitem ''pnr_status'' (PInt s) d) \<longleftrightarrow> s = 1"
  by (simp_all add: pnr_status_in_1_2_def pnr_status_eq_1_def)

lemma preceded_by_Cons [simp]:
  "preceded_by P Q (x # xs) \<longleftrightarrow> P x \<or> (\<not> Q x \<and> preceded_by P Q xs)"
  by (simp add: preceded_by_def)



lemma preceded_by_Nil [simp]: "preceded_by P Q []"
  by (simp add: preceded_by_def)


lemma executed_actions_append [simp]:
  "executed_actions (xs @ ys) = executed_actions xs @ executed_actions ys"
  by (induction xs rule: executed_actions.induct) auto

lemma records_append [simp]: "records (xs @ ys) = records xs @ records ys"
  by (induction xs rule: records.induct) auto

lemma selenium_no_actions: "list_all is_selenium xs \<Longrightarrow> executed_actions xs = []"
  by (induction xs rule: executed_actions.induct) auto

lemma no_add_patient_records: "list_all (\<lambda>e. \<not> is_add_patient e) xs \<Longrightarrow> records xs = []"
  by (induction xs rule: records.induct) auto

lemma input_fields_setitem [simp]:
  "k \<in> set [''age'', ''pnr_status'', ''pic''] \<Longrightarrow> input_fields (setitem k v d) = input_fields d"
  by (induction d) (auto simp: input_fields_def)

lemma logs_only_process_pnr:
  "logs_only (\<lambda>e. \<not> is_add_patient e \<and> e \<noteq> Quit) (process_pnr env patient_data pnr comments)"
  unfolding process_pnr_def Let_def fetch_patient_data_def fetch_pic_from_database_def
  by (intro logs_only_then_io logs_only_call logs_only_lift logs_only_ret logs_only_if
        logs_only_case_prod logs_only_execute
        logs_only_mono [OF logs_only_check_request_accepted])
     (auto elim: is_selenium.elims)

lemma fst_fetch_pic_from_database [simp]:
  "fst (fetch_pic_from_database env pnr tr) = then_e (post_json env pnr) pic_of_json"
  by (cases "post_json env pnr")
     (simp_all add: fetch_pic_from_database_def then_io_def call_def lift_def)

lemma appends_actionsD:
  "engine_execute env key context comments = Inr (res, comments') \<Longrightarrow> appends_actions env
   \<Longrightarrow> comments' = comments @ actions res"
  by (simp add: appends_actions_def)

lemma process_pnr_status:
  assumes run: "process_pnr env patient_data pnr comments tr = (Inr x, tr')"
  obtains html status where "get_text env pnr = Inr html" "get_pnr_status env html = Inr status"
proof -
  obtain html where page: "get_text env pnr = Inr html"
    using run by (cases "get_text env pnr") (simp_all add: process_pnr_def)
  obtain status where "get_pnr_status env html = Inr status"
    using run page by (cases "get_pnr_status env html") (simp_all add: process_pnr_def)
  with page that show thesis by blast
qed

lemma process_pnr_Inr:
  assumes run: "process_pnr env patient_data pnr comments tr = (Inr (patient_data', comments'), tr')"
  shows "\<exists>status.
           resolve_status env pnr = Inr status
         \<and> input_fields patient_data' = input_fields patient_data
         \<and> map_of patient_data' ''pnr_status'' = Some (PInt status)
         \<and> getitem patient_data' ''pic'' =
             (if status = 1 \<or> status = 2 then fst (fetch_pic_from_database env pnr [])
              else Inr PNone)"
proof -
  from run obtain html status
    where html: "get_text env pnr = Inr html" "get_pnr_status env html = Inr status"
    by (rule process_pnr_status)
  then have status: "resolve_status env pnr = Inr status"
    by (simp add: resolve_status_def)
  consider "status = 1" | "status = 2" | "status \<noteq> 1" "status \<noteq> 2" by blast
  then have "input_fields patient_data' = input_fields patient_data
         \<and> map_of patient_data' ''pnr_status'' = Some (PInt status)
         \<and> getitem patient_data' ''pic'' =
             (if status = 1 \<or> status = 2 then fst (fetch_pic_from_database env pnr [])
              else Inr PNone)"
  proof cases
    case 1
    with run html show ?thesis
      by (simp add: process_pnr_def Let_def split: prod.splits, elim disjE exE conjE) auto
  next
    case 2
    with run html show ?thesis
      by (simp add: process_pnr_def Let_def split: prod.splits, elim disjE exE conjE) auto
  next
    case 3
    with run html show ?thesis
      by (simp add: process_pnr_def Let_def split: prod.splits) auto
  qed
  with status show ?thesis by blast
qed

lemma process_pnr_comments:
  assumes run: "process_pnr env patient_data pnr comments tr = (Inr (patient_data', comments'), tr')"
      and appends: "appends_actions env"
  shows "\<exists>new. tr' = tr @ new \<and> comments' = comments @ executed_actions new"
proof -
  from run obtain html status
    where html: "get_text env pnr = Inr html" "get_pnr_status env html = Inr status"
    by (rule process_pnr_status)
  consider "status = 1" | "status = 2" | "status \<noteq> 1" "status \<noteq> 2" by blast
  then show ?thesis
  proof cases
    case 1
    with run html show ?thesis
      apply (simp add: process_pnr_def Let_def split: prod.splits)
      apply (elim disjE exE conjE)
      apply (drule appends_actionsD [OF _ appends])+
      apply (auto dest!: check_request_accepted_starts simp: selenium_no_actions)
      done
  next
    case 2
    with run html show ?thesis
      apply (simp add: process_pnr_def Let_def split: prod.splits)
      apply (elim disjE exE conjE)
      apply (drule appends_actionsD [OF _ appends])+
      apply auto
      done
  next
    case 3
    with run html show ?thesis
      apply (simp add: process_pnr_def Let_def split: prod.splits)
      apply (elim disjE exE conjE)
      apply (drule appends_actionsD [OF _ appends])+
      apply auto
      done
  qed
qed

lemma logs_only_process_pnr_quiet:
  "logs_only quiet (process_pnr env patient_data pnr comments)"
  using logs_only_process_pnr unfolding quiet_def .

lemma logs_only_for_pnr: "logs_only quiet (for_pnr env pnrs patient_data comments)"
  by (induction pnrs arbitrary: patient_data comments)
     (auto intro!: logs_only_process_pnr_quiet)

lemma for_pnr_comments:
  assumes "for_pnr env pnrs patient_data comments tr = (Inr (patient_data', comments'), tr')"
      and "appends_actions env"
  shows "\<exists>new. tr' = tr @ new \<and> comments' = comments @ executed_actions new"
  using assms(1)
proof (induction pnrs arbitrary: patient_data comments tr)
  case Nil
  then show ?case by simp
next
  case (Cons pnr pnrs)
  from Cons.prems obtain pd1 cs1 tr1
    where step: "process_pnr env patient_data pnr comments tr = (Inr (pd1, cs1), tr1)"
      and rest: "for_pnr env pnrs pd1 cs1 tr1 = (Inr (patient_data', comments'), tr')"
    by auto
  from process_pnr_comments [OF step assms(2)] Cons.IH [OF rest]
  show ?case by auto
qed

lemma for_pnr_input_fields:
  "for_pnr env pnrs patient_data comments tr = (Inr (patient_data', comments'), tr')
   \<Longrightarrow> input_fields patient_data' = input_fields patient_data"
proof (induction pnrs arbitrary: patient_data comments tr)
  case Nil
  then show ?case by simp
next
  case (Cons pnr pnrs)
  from Cons.prems obtain pd1 cs1 tr1
    where step: "process_pnr env patient_data pnr comments tr = (Inr (pd1, cs1), tr1)"
      and rest: "for_pnr env pnrs pd1 cs1 tr1 = (Inr (patient_data', comments'), tr')"
    by auto
  from process_pnr_Inr [OF step] Cons.IH [OF rest]
  show ?case by auto
qed

subsection \<open>One patient\<close>

lemma add_patient_eq [simp]:
  "add_patient patient_data comments tr = (r, tr') \<longleftrightarrow>
     r = Inr () \<and> tr' = tr @ [Add_patient patient_data comments]"
  by (auto simp: add_patient_def)

lemma process_patient_cases:
  assumes "process_patient env patient tr = (r, tr')"
  obtains
    (early) e where "r = Inl e" "tr' = tr"
  | (engine) birthday age res comments where
      "getitem patient ''birthday'' = Inr birthday"
      "years_since env birthday = Inr age"
      "engine_execute env ''rules_context.deal_breakers.rules''
         (setitem ''age'' (PInt age) patient) [] = Inr (res, comments)"
      "(if passed res > 0 then
          add_patient (setitem ''pic'' PNone (setitem ''age'' (PInt age) patient))
            (join '' / '' (actions res))
        else
          then_io (lift (getitem (setitem ''age'' (PInt age) patient) ''pnr'')) (\<lambda>pnrs.
          then_io (lift (iter_items pnrs)) (\<lambda>pnrs.
          then_io (for_pnr env pnrs (setitem ''age'' (PInt age) patient) comments)
            (\<lambda>(patient_data, comments).
          add_patient patient_data (join '' / '' comments)))))
        (tr @ [Executed ''rules_context.deal_breakers.rules'' (actions res)]) = (r, tr')"
proof (cases "getitem patient ''birthday''")
  case (Inl e)
  with assms early show ?thesis by (auto simp: process_patient_def then_io_def lift_def)
next
  case b: (Inr birthday)
  show ?thesis
  proof (cases "years_since env birthday")
    case (Inl e)
    with assms b early show ?thesis by (auto simp: process_patient_def then_io_def lift_def)
  next
    case age: (Inr age)
    show ?thesis
    proof (cases "engine_execute env ''rules_context.deal_breakers.rules''
                    (setitem ''age'' (PInt age) patient) []")
      case (Inl e)
      with assms b age early show ?thesis
        by (auto simp: process_patient_def then_io_def lift_def execute_def Let_def)
    next
      case (Inr x)
      obtain res comments where "x = (res, comments)" by (cases x)
      with Inr assms b age show ?thesis
        by (intro engine [of birthday age res comments])
           (simp_all add: process_patient_def then_io_def [of "lift _"] then_io_def [of "execute _ _ _ _"]
              lift_def execute_def Let_def)
    qed
  qed
qed

lemma process_patient_Inr:
  assumes "process_patient env patient tr = (Inr (), tr')"
  shows "\<exists>new patient_data comment.
           tr' = tr @ new @ [Add_patient patient_data comment]
         \<and> list_all quiet new
         \<and> input_fields patient_data = input_fields patient
         \<and> (appends_actions env \<longrightarrow> comment = join '' / '' (executed_actions new))"
  using assms
proof (cases rule: process_patient_cases)
  case (early e)
  then show ?thesis by simp
next
  case (engine birthday age res comments)
  let ?db = "Executed ''rules_context.deal_breakers.rules'' (actions res)"
  let ?pd = "setitem ''age'' (PInt age) patient"
  show ?thesis
  proof (cases "passed res > 0")
    case True
    with engine(4) show ?thesis
      by (intro exI [of _ "[?db]"]) (auto simp: quiet_def)
  next
    case False
    with engine(4) obtain pnrs pd' cs' tr2
      where loop: "for_pnr env pnrs ?pd comments (tr @ [?db]) = (Inr (pd', cs'), tr2)"
        and fin: "tr' = tr2 @ [Add_patient pd' (join '' / '' cs')]"
      by auto
    from logs_onlyD [OF logs_only_for_pnr loop] obtain new
      where new: "tr2 = (tr @ [?db]) @ new" "list_all quiet new" by blast
    have fields: "input_fields pd' = input_fields patient"
      using for_pnr_input_fields [OF loop] by simp
    have "cs' = executed_actions (?db # new)" if "appends_actions env"
      using for_pnr_comments [OF loop that] appends_actionsD [OF engine(3) that] new(1)
      by auto
    with new fin fields show ?thesis
      by (intro exI [of _ "?db # new"] exI [of _ pd'] exI [of _ "join '' / '' cs'"])
         (auto simp: quiet_def)
  qed
qed

lemma process_patient_Inl:
  assumes "process_patient env patient tr = (Inl e, tr')"
  shows "\<exists>new. tr' = tr @ new \<and> list_all quiet new"
  using assms
proof (cases rule: process_patient_cases)
  case (early e')
  then show ?thesis by simp
next
  case (engine birthday age res comments)
  let ?db = "Executed ''rules_context.deal_breakers.rules'' (actions res)"
  let ?pd = "setitem ''age'' (PInt age) patient"
  from engine(4) have "passed res \<le> 0"
    by (auto split: if_splits)
  with engine(4) consider "tr' = tr @ [?db]"
    | pnrs where "for_pnr env pnrs ?pd comments (tr @ [?db]) = (Inl e, tr')"
    by auto
  then show ?thesis
  proof cases
    case 1
    then show ?thesis by (auto simp: quiet_def)
  next
    case 2
    from logs_onlyD [OF logs_only_for_pnr 2] show ?thesis
      by (auto simp: quiet_def)
  qed
qed

lemma quiet_records: "list_all quiet xs \<Longrightarrow> records xs = []"
  by (rule no_add_patient_records) (simp add: quiet_def list_all_iff)

lemma appends_actions_rules_engine:
  "appends_actions (env\<lparr>engine_execute := rules_engine_execute rs\<rparr>)"
  by (auto simp: appends_actions_def rules_engine_execute_def split: option.splits)

subsection \<open>The batch\<close>

lemma process_patient_no_quit:
  assumes "process_patient env patient tr = (r, tr')"
  shows "\<exists>new. tr' = tr @ new \<and> list_all (\<lambda>e. e \<noteq> Quit) new"
proof (cases r)
  case (Inl e)
  with process_patient_Inl [of env patient tr e tr'] assms show ?thesis
    by (auto simp: quiet_def list_all_iff)
next
  case (Inr u)
  with process_patient_Inr [of env patient tr tr'] assms show ?thesis
    by (auto simp: quiet_def list_all_iff)
qed

lemma for_patient_run:
  assumes "for_patient env patients tr = (r, tr')"
  shows "\<exists>k new. k \<le> length patients \<and> tr' = tr @ new \<and> list_all (\<lambda>e. e \<noteq> Quit) new
         \<and> map input_fields (map fst (records new)) = map input_fields (take k patients)
         \<and> (r = Inr () \<longrightarrow> k = length patients)
         \<and> (k < length patients \<longrightarrow>
              (\<exists>e tr1. r = Inl e \<and> process_patient env (patients ! k) tr1 = (Inl e, tr')))"
  using assms
proof (induction patients arbitrary: tr)
  case Nil
  then show ?case by simp
next
  case (Cons p ps)
  obtain r1 tr1 where first: "process_patient env p tr = (r1, tr1)"
    by (cases "process_patient env p tr")
  show ?case
  proof (cases r1)
    case (Inl e)
    with first Cons.prems have out: "r = Inl e" "tr' = tr1"
      by (auto simp: then_io_def)
    from process_patient_Inl [OF first [unfolded Inl]] obtain new
      where new: "tr1 = tr @ new" "list_all quiet new" by blast
    with out first Inl show ?thesis
      by (intro exI [of _ 0] exI [of _ new])
         (auto simp: quiet_records quiet_def list_all_iff)
  next
    case (Inr u)
    with first Cons.prems have rest: "for_patient env ps tr1 = (r, tr')"
      by (auto simp: then_io_def)
    from process_patient_Inr [OF first [unfolded Inr, simplified]] obtain new1 pd c
      where new1: "tr1 = tr @ new1 @ [Add_patient pd c]" "list_all quiet new1"
        "input_fields pd = input_fields p" by blast
    from Cons.IH [OF rest] obtain k new2
      where k: "k \<le> length ps" "tr' = tr1 @ new2" "list_all (\<lambda>e. e \<noteq> Quit) new2"
        "map input_fields (map fst (records new2)) = map input_fields (take k ps)"
        "r = Inr () \<longrightarrow> k = length ps"
        "k < length ps \<longrightarrow>
           (\<exists>e tr1. r = Inl e \<and> process_patient env (ps ! k) tr1 = (Inl e, tr'))"
      by blast
    with new1 show ?thesis
      by (intro exI [of _ "Suc k"] exI [of _ "new1 @ Add_patient pd c # new2"])
         (auto simp: quiet_records quiet_def list_all_iff)
  qed
qed

lemma login_log:
  assumes "login env self tr = (r, tr')"
  shows "\<exists>new. tr' = tr @ new \<and> list_all (\<lambda>e. e \<noteq> Quit) new \<and> records new = []"
  using assms
  by (cases r) (auto simp: login_def split: if_splits)

subsection \<open>Results alone, and the category search\<close>

lemma fst_then_io:
  "fst (then_io m f tr) = (case fst (m tr) of Inl e \<Rightarrow> Inl e | Inr x \<Rightarrow> fst (f x (snd (m tr))))"
  by (cases "m tr") (auto simp: then_io_def split: sum.splits)

lemma fst_then_io_Inr:
  "\<not> isl (fst (m tr)) \<Longrightarrow> fst (then_io m f tr) = fst (f (projr (fst (m tr))) (snd (m tr)))"
  by (cases "m tr") (auto simp: then_io_def split: sum.splits)

lemma fst_then_io_Inl:
  "isl (fst (m tr)) \<Longrightarrow> fst (then_io m f tr) = Inl (projl (fst (m tr)))"
  by (cases "m tr") (auto simp: then_io_def split: sum.splits)

lemma fst_simple [simp]:
  "fst (lift r tr) = r" "fst (call ev r tr) = r" "fst (ret x tr) = Inr x" "fst (raise e tr) = Inl e"
  by (simp_all add: lift_def call_def ret_def raise_def)

lemma fst_execute:
  "fst (execute env key context comments tr) = engine_execute env key context comments"
  by (auto simp: execute_def split: sum.splits)

lemma first_offered_Cons:
  "first_offered items (code # codes) =
     (if code \<in> PStr ` set items then Some code else first_offered items codes)"
  by (simp add: first_offered_def)

lemma find_code_result:
  assumes "selenium env (Find_elements_class ''k-item'') = Inr items"
  shows "fst (find_code env codes tr) =
           (case first_offered items codes of Some (PStr text) \<Rightarrow> Inr text | _ \<Rightarrow> Inl ValueError)"
proof (induction codes arbitrary: tr)
  case Nil
  then show ?case by (simp add: first_offered_def)
next
  case (Cons code codes)
  show ?case
  proof (cases "find (\<lambda>text. PStr text = code) items")
    case None
    then have "code \<notin> PStr ` set items"
      by (auto simp: find_None_iff)
    with None assms Cons.IH show ?thesis
      by (simp add: fst_then_io selenium_call_def first_offered_Cons)
  next
    case (Some item)
    then have "PStr item = code" "item \<in> set items"
      by (auto simp: find_Some_iff)
    with Some assms show ?thesis
      by (auto simp: fst_then_io selenium_call_def first_offered_Cons)
  qed
qed

lemma search_fails_accept_request:
  assumes items: "selenium env (Find_elements_class ''k-item'') = Inr items"
      and none: "first_offered items (codes_to_try code) = None"
      and steps: "list_all (\<lambda>s. \<not> isl (selenium env s)) (steps_before_search pnr)"
  shows "fst (check_request_accepted env pnr esame code tr) = Inl ValueError"
proof -
  have step: "fst (selenium_call env s t) = selenium env s" for s t
    by (simp add: selenium_call_def)
  from find_code_result [OF items] none
  have "fst (find_code env (codes_to_try code) t) = Inl ValueError" for t
    by simp
  with steps show ?thesis
    by (simp add: check_request_accepted_def steps_before_search_def fst_then_io_Inr
          fst_then_io_Inl step)
qed

lemma raising_reference_ends_patient:
  assumes raises: "\<And>t. fst (process_pnr env (setitem ''age'' (PInt age) patient) pnr comments t) = Inl e"
      and birthday: "getitem patient ''birthday'' = Inr birthday"
      and age: "years_since env birthday = Inr age"
      and gate: "engine_execute env ''rules_context.deal_breakers.rules''
             (setitem ''age'' (PInt age) patient) [] = Inr (res, comments)"
      and not_rejected: "passed res \<le> 0"
      and refs: "getitem patient ''pnr'' = Inr refs" "iter_items refs = Inr (pnr # pnrs)"
  shows "fst (process_patient env patient tr) = Inl e"
  using assms
  by (simp add: process_patient_def fst_then_io_Inr fst_then_io_Inl fst_execute Let_def)

lemma raising_patient_ends_batch:
  assumes "fst (process_patient env patient tr) = Inl e"
  shows "fst (for_patient env (patient # rest) tr) = Inl e
       \<and> records (snd (for_patient env (patient # rest) tr)) = records tr"
proof -
  from assms obtain tr1 where run: "process_patient env patient tr = (Inl e, tr1)"
    by (cases "process_patient env patient tr") simp
  from process_patient_Inl [OF run] have "records tr1 = records tr"
    by (auto simp: quiet_records)
  with run show ?thesis
    by (simp add: then_io_def)
qed

subsection \<open>The input file\<close>

lemma parse_row_append:
  "parse_row env row (xs @ ys) d = then_e (parse_row env row xs d) (parse_row env row ys)"
proof (induction xs arbitrary: d)
  case Nil
  show ?case by simp
next
  case (Cons x xs)
  then show ?case by (cases "parse_item env row x d") simp_all
qed

lemma parse_item_array: "coltype item = ''array'' \<Longrightarrow> parse_item env row item d = Inl NameError"
  by (simp add: parse_item_def)

lemma parse_row_array:
  assumes "item \<in> set mapping" "coltype item = ''array''"
  shows "\<exists>e. parse_row env row mapping d = Inl e"
  using assms
proof (induction mapping arbitrary: d)
  case Nil
  then show ?case by simp
next
  case (Cons x xs)
  then show ?case
    by (cases "parse_item env row x d") (auto simp: parse_item_array)
qed

subsection \<open>Where the code agrees with claims it otherwise breaks\<close>

lemma only_last_fallback_offered:
  "fst (find_code example_env (codes_to_try (PStr ''Radiologia'')) []) = Inr ''Altre prestazioni''"
  by code_simp

lemma empty_credentials_abort:
  assumes "username self = PStr [] \<or> password self = PStr []"
      and "parse_input_from_hospital env (mapping_csv self) (file_input self) = Inr patients"
  shows "process_patients env self tr = (Inl ValueError, tr)"
  using assms
  by (auto simp: process_patients_def login_def then_io_def lift_def raise_def)

lemma returning_batch_quits_once:
  assumes "process_patients env self tr = (Inr (), tr')"
  shows "\<exists>new. tr' = tr @ new @ [Quit, Send_mail_to_hospital] \<and> list_all (\<lambda>e. e \<noteq> Quit) new"
proof -
  from assms obtain patients tr0 tr1
    where login: "login env self tr = (Inr (), tr0)"
      and loop: "for_patient env patients tr0 = (Inr (), tr1)"
      and fin: "tr' = tr1 @ [Quit, Send_mail_to_hospital]"
    by (auto simp: process_patients_def)
  from login_log [OF login] for_patient_run [OF loop] fin show ?thesis
    by auto
qed

section \<open>The claims\<close>

text \<open>
  C1. When the \<^verbatim>\<open>deal_breakers\<close> phase returns \<^verbatim>\<open>passed > 0\<close> for a patient,
  \<^verbatim>\<open>process_patient\<close> returns normally, having set \<^verbatim>\<open>pic\<close> to None and handed
  the record to \<^verbatim>\<open>add_patient\<close> with the returned actions joined by \<^verbatim>\<open>" / "\<close> as
  the comment. The only calls it has made are the rule phase and \<^verbatim>\<open>add_patient\<close>:
  no reference is fetched and no remote call is made.
\<close>

theorem deal_breaker_rejects_without_remote_calls:
  assumes "getitem patient ''birthday'' = Inr birthday"
      and "years_since env birthday = Inr age"
      and "engine_execute env ''rules_context.deal_breakers.rules''
             (setitem ''age'' (PInt age) patient) [] = Inr (res, comments)"
      and "passed res > 0"
  shows "\<exists>final new.
           process_patient env patient tr = (Inr (), tr @ new)
         \<and> new = [Executed ''rules_context.deal_breakers.rules'' (actions res),
                  Add_patient final (join '' / '' (actions res))]
         \<and> map_of final ''pic'' = Some PNone
         \<and> \<not> list_ex remote_call new"
  using assms
  by (simp add: process_patient_def Let_def then_io_def lift_def execute_def add_patient_def
        call_def)

theorem deal_breaker_rejects_without_remote_calls_witness:
  "\<exists>final new.
     process_patient example_env (example_patient ''Ada'' 2014 (PStr ''AB'')) [] = (Inr (), [] @ new)
   \<and> new = [Executed ''rules_context.deal_breakers.rules''
              (actions \<lparr>passed = 1, actions = [''minor'']\<rparr>),
            Add_patient final (join '' / '' (actions \<lparr>passed = 1, actions = [''minor'']\<rparr>))]
   \<and> map_of final ''pic'' = Some PNone
   \<and> \<not> list_ex remote_call new"
  by (rule deal_breaker_rejects_without_remote_calls
        [where birthday = "PDate 2014" and age = 10 and comments = "[''minor'']"])
     (simp_all add: example_env_def example_patient_def getitem_def rules_engine_execute_def
        example_rules_def matching_def int_field_def)




text \<open>
  C3. The session is closed once, after the last patient, on every exit path. The
  code does so only when \<^verbatim>\<open>process_patients\<close> returns: in the run below, where
  the second patient raises, \<^verbatim>\<open>webdriver.quit\<close> is never called.
\<close>

theorem session_left_open_on_failure:
  "fst (process_patients example_env (example_self example_rows) [])
     = Inl (Raised ''RemoteCommunicationError'')
   \<and> count_list (snd (process_patients example_env (example_self example_rows) [])) Quit = 0"
  by code_simp



text \<open>
  C5 as stated fails: when none of the three categories is offered for the first
  patient, the second patient, whose reference is already approved, is not
  processed: the exception ends the batch.
\<close>

theorem missing_category_aborts_the_batch:
  "fst (process_patients example_env_no_category
          (example_self [example_row ''Bob'' ''1950'' ''B'', example_row ''Cy'' ''1950'' ''A'']) [])
     = Inl ValueError
   \<and> records (snd (process_patients example_env_no_category
          (example_self [example_row ''Bob'' ''1950'' ''B'', example_row ''Cy'' ''1950'' ''A'']) []))
     = []"
  by code_simp

text \<open>
  C5, as the code has it. The search of the accept-request procedure returns the
  first of the requested category, "Visite specialistiche" and "Altre prestazioni"
  that is the text of an offered item, and raises ValueError when none is. That
  ValueError is caught nowhere: raised for the first reference of a patient that
  passed the deal-breaker gate, it ends \<^verbatim>\<open>process_patient\<close> and the loop over the
  patients, with no record for this patient nor for those after it.
\<close>

theorem category_selection_order:
  assumes items: "selenium env (Find_elements_class ''k-item'') = Inr items"
  shows "fst (find_code env (codes_to_try code) tr) =
           (case first_offered items (codes_to_try code) of
              Some (PStr text) \<Rightarrow> Inr text
            | _ \<Rightarrow> Inl ValueError)
       \<and> (first_offered items (codes_to_try code) = None \<longrightarrow>
          getitem patient ''birthday'' = Inr birthday \<longrightarrow>
          years_since env birthday = Inr age \<longrightarrow>
          engine_execute env ''rules_context.deal_breakers.rules''
            (setitem ''age'' (PInt age) patient) [] = Inr (res, comments) \<longrightarrow>
          passed res \<le> 0 \<longrightarrow>
          getitem patient ''pnr'' = Inr refs \<longrightarrow>
          iter_items refs = Inr (pnr # pnrs) \<longrightarrow>
          resolve_status env pnr = Inr 1 \<longrightarrow>
          getitem patient ''esame'' = Inr esame \<longrightarrow>
          getitem patient ''prestazioni'' = Inr code \<longrightarrow>
          list_all (\<lambda>s. \<not> isl (selenium env s)) (steps_before_search pnr) \<longrightarrow>
            fst (for_patient env (patient # rest) tr0) = Inl ValueError
          \<and> records (snd (for_patient env (patient # rest) tr0)) = records tr0)"
proof (intro conjI impI)
  show "fst (find_code env (codes_to_try code) tr) =
           (case first_offered items (codes_to_try code) of
              Some (PStr text) \<Rightarrow> Inr text
            | _ \<Rightarrow> Inl ValueError)"
    by (rule find_code_result [OF items])
next
  assume none: "first_offered items (codes_to_try code) = None"
    and birthday: "getitem patient ''birthday'' = Inr birthday"
    and age: "years_since env birthday = Inr age"
    and gate: "engine_execute env ''rules_context.deal_breakers.rules''
            (setitem ''age'' (PInt age) patient) [] = Inr (res, comments)"
    and not_rejected: "passed res \<le> 0"
    and refs: "getitem patient ''pnr'' = Inr refs" "iter_items refs = Inr (pnr # pnrs)"
    and status: "resolve_status env pnr = Inr 1"
    and esame: "getitem patient ''esame'' = Inr esame"
    and prestazioni: "getitem patient ''prestazioni'' = Inr code"
    and steps: "list_all (\<lambda>s. \<not> isl (selenium env s)) (steps_before_search pnr)"
  from status obtain html where html: "get_text env pnr = Inr html" "get_pnr_status env html = Inr 1"
    by (auto simp: resolve_status_def)
  have "fst (process_pnr env (setitem ''age'' (PInt age) patient) pnr comments t) = Inl ValueError" for t
    using html esame prestazioni search_fails_accept_request [OF items none steps]
    by (simp add: process_pnr_def fst_then_io_Inr fst_then_io_Inl fetch_patient_data_def Let_def)
  from raising_patient_ends_batch
         [OF raising_reference_ends_patient [OF this birthday age gate not_rejected refs]]
  show "fst (for_patient env (patient # rest) tr0) = Inl ValueError"
    "records (snd (for_patient env (patient # rest) tr0)) = records tr0"
    by simp_all
qed

theorem category_selection_order_witness:
  "selenium example_env_no_category (Find_elements_class ''k-item'') = Inr [''Ricovero'', ''Odontoiatria'']
   \<and> first_offered [''Ricovero'', ''Odontoiatria''] (codes_to_try (PStr ''Radiologia'')) = None
   \<and> resolve_status example_env_no_category (PStr ''B'') = Inr 1
   \<and> fst (find_code example_env_no_category (codes_to_try (PStr ''Radiologia'')) []) = Inl ValueError
   \<and> fst (for_patient example_env_no_category
            [example_patient ''Bob'' 1950 (PStr ''B''), example_patient ''Cy'' 1950 (PStr ''A'')] [])
       = Inl ValueError
   \<and> records (snd (for_patient example_env_no_category
            [example_patient ''Bob'' 1950 (PStr ''B''), example_patient ''Cy'' 1950 (PStr ''A'')] []))
       = records []"
proof -
  let ?env = example_env_no_category
  let ?p = "example_patient ''Bob'' 1950 (PStr ''B'')"
  have items: "selenium ?env (Find_elements_class ''k-item'') = Inr [''Ricovero'', ''Odontoiatria'']"
    by (simp add: example_env_no_category_def)
  have none: "first_offered [''Ricovero'', ''Odontoiatria''] (codes_to_try (PStr ''Radiologia'')) = None"
    by (simp add: first_offered_def codes_to_try_def)
  have birthday: "getitem ?p ''birthday'' = Inr (PDate 1950)"
    by (simp add: example_patient_def getitem_def)
  have age: "years_since ?env (PDate 1950) = Inr 74"
    by (simp add: example_env_no_category_def example_env_def)
  have gate: "engine_execute ?env ''rules_context.deal_breakers.rules''
             (setitem ''age'' (PInt 74) ?p) [] = Inr (\<lparr>passed = 0, actions = []\<rparr>, [])"
    by (simp add: example_env_no_category_def example_env_def example_patient_def
          rules_engine_execute_def example_rules_def matching_def int_field_def)
  have not_rejected: "passed \<lparr>passed = 0, actions = []\<rparr> \<le> 0"
    by simp
  have refs: "getitem ?p ''pnr'' = Inr (PStr ''B'')" "iter_items (PStr ''B'') = Inr (PStr ''B'' # [])"
    by (simp_all add: example_patient_def getitem_def)
  have status: "resolve_status ?env (PStr ''B'') = Inr 1"
    by (simp add: resolve_status_def example_env_no_category_def example_env_def)
  have esame: "getitem ?p ''esame'' = Inr (PStr ''RX'')"
    by (simp add: example_patient_def getitem_def)
  have prestazioni: "getitem ?p ''prestazioni'' = Inr (PStr ''Radiologia'')"
    by (simp add: example_patient_def getitem_def)
  have steps: "list_all (\<lambda>s. \<not> isl (selenium ?env s)) (steps_before_search (PStr ''B''))"
    by (simp add: steps_before_search_def example_env_no_category_def)
  from category_selection_order [OF items, of "PStr ''Radiologia''" "[]" ?p "PDate 1950" 74
      "\<lparr>passed = 0, actions = []\<rparr>" "[]" "PStr ''B''" "PStr ''B''" "[]" "PStr ''RX''"
      "[example_patient ''Cy'' 1950 (PStr ''A'')]" "[]"]
    items none birthday age gate not_rejected refs status esame prestazioni steps
  show ?thesis by simp
qed

text \<open>
  C6. With the rules engine as the spec describes it, every patient that
  \<^verbatim>\<open>process_patient\<close> finalizes is handed to \<^verbatim>\<open>add_patient\<close> once, as its last
  call, with a comment that is the action strings of all rule phases executed for
  the patient, in order of execution and of rule, joined by \<^verbatim>\<open>" / "\<close>.
\<close>

theorem final_comment_joins_executed_actions:
  assumes "process_patient (env\<lparr>engine_execute := rules_engine_execute rs\<rparr>) patient tr
             = (Inr (), tr')"
  shows "\<exists>new final comment.
           tr' = tr @ new @ [Add_patient final comment]
         \<and> \<not> list_ex is_add_patient new
         \<and> comment = join '' / '' (executed_actions new)"
proof -
  from process_patient_Inr [OF assms] appends_actions_rules_engine [of rs env]
  obtain new final comment where
    "tr' = tr @ new @ [Add_patient final comment]" "list_all quiet new"
    "comment = join '' / '' (executed_actions new)"
    by blast
  moreover from this(2) have "\<not> list_ex is_add_patient new"
    by (simp add: quiet_def list_all_iff list_ex_iff)
  ultimately show ?thesis by blast
qed

theorem final_comment_joins_executed_actions_witness:
  "fst (process_patient (example_env\<lparr>engine_execute := rules_engine_execute example_rules\<rparr>)
         (example_patient ''Bob'' 1950 (PStr ''AB'')) []) = Inr ()
   \<and> (\<exists>new final comment.
         snd (process_patient (example_env\<lparr>engine_execute := rules_engine_execute example_rules\<rparr>)
               (example_patient ''Bob'' 1950 (PStr ''AB'')) [])
           = [] @ new @ [Add_patient final comment]
       \<and> \<not> list_ex is_add_patient new
       \<and> comment = join '' / '' (executed_actions new))"
proof -
  have ok: "fst (process_patient (example_env\<lparr>engine_execute := rules_engine_execute example_rules\<rparr>)
         (example_patient ''Bob'' 1950 (PStr ''AB'')) []) = Inr ()"
    by code_simp
  then have run: "process_patient (example_env\<lparr>engine_execute := rules_engine_execute example_rules\<rparr>)
         (example_patient ''Bob'' 1950 (PStr ''AB'')) [] =
      (Inr (), snd (process_patient (example_env\<lparr>engine_execute := rules_engine_execute example_rules\<rparr>)
         (example_patient ''Bob'' 1950 (PStr ''AB'')) []))"
    by (metis prod.collapse)
  from final_comment_joins_executed_actions [OF run] ok show ?thesis by blast
qed

text \<open>
  C7. A patient that passes the deal-breaker gate and has two references, the first
  resolving to status 2 (already approved) and the second to status 1 (awaiting
  manual approval), is finalized with one record whose \<^verbatim>\<open>pnr_status\<close> is 1 and whose
  \<^verbatim>\<open>pic\<close> is the identifier looked up for the second reference: both fields are
  overwritten by the second iteration of the loop.
\<close>

theorem last_reference_overwrites:
  assumes run: "process_patient env patient tr = (Inr (), tr')"
      and birthday: "getitem patient ''birthday'' = Inr birthday"
      and age: "years_since env birthday = Inr age"
      and gate: "engine_execute env ''rules_context.deal_breakers.rules''
             (setitem ''age'' (PInt age) patient) [] = Inr (res, comments)"
      and not_rejected: "passed res \<le> 0"
      and refs: "getitem patient ''pnr'' = Inr refs" "iter_items refs = Inr [pnr1, pnr2]"
      and first: "resolve_status env pnr1 = Inr 2"
      and second: "resolve_status env pnr2 = Inr 1"
  shows "\<exists>final comment.
           records tr' = records tr @ [(final, comment)]
         \<and> map_of final ''pnr_status'' = Some (PInt 1)
         \<and> getitem final ''pic'' = fst (fetch_pic_from_database env pnr2 [])"
  using run
proof (cases rule: process_patient_cases)
  case (early e)
  then show ?thesis by simp
next
  case (engine birthday' age' res' comments')
  with birthday age gate have same: "birthday' = birthday" "age' = age" "res' = res" "comments' = comments"
    by auto
  let ?db = "Executed ''rules_context.deal_breakers.rules'' (actions res)"
  let ?pd = "setitem ''age'' (PInt age) patient"
  from engine(4) same not_rejected refs obtain pd' cs' tr2
    where loop: "for_pnr env [pnr1, pnr2] ?pd comments (tr @ [?db]) = (Inr (pd', cs'), tr2)"
      and fin: "tr' = tr2 @ [Add_patient pd' (join '' / '' cs')]"
    by auto
  from loop obtain pd1 cs1 tr1
    where "process_pnr env ?pd pnr1 comments (tr @ [?db]) = (Inr (pd1, cs1), tr1)"
      and step2: "process_pnr env pd1 pnr2 cs1 tr1 = (Inr (pd', cs'), tr2)"
    by auto
  from process_pnr_Inr [OF step2] second
  have out: "map_of pd' ''pnr_status'' = Some (PInt 1)"
    "getitem pd' ''pic'' = fst (fetch_pic_from_database env pnr2 [])"
    by auto
  from logs_onlyD [OF logs_only_for_pnr loop] obtain new
    where "tr2 = (tr @ [?db]) @ new" "list_all quiet new" by blast
  with fin have "records tr' = records tr @ [(pd', join '' / '' cs')]"
    by (simp add: quiet_records)
  with out show ?thesis by blast
qed

theorem last_reference_overwrites_witness:
  "fst (process_patient example_env (example_patient ''Bob'' 1950 (PStr ''AB'')) []) = Inr ()
   \<and> resolve_status example_env (PStr ''A'') = Inr 2
   \<and> resolve_status example_env (PStr ''B'') = Inr 1
   \<and> fst (fetch_pic_from_database example_env (PStr ''A'') []) = Inr (PStr ''PIC-A'')
   \<and> (\<exists>final comment.
         records (snd (process_patient example_env (example_patient ''Bob'' 1950 (PStr ''AB'')) []))
           = records [] @ [(final, comment)]
       \<and> map_of final ''pnr_status'' = Some (PInt 1)
       \<and> getitem final ''pic'' = Inr (PStr ''PIC-B''))"
proof -
  let ?p = "example_patient ''Bob'' 1950 (PStr ''AB'')"
  have ok: "fst (process_patient example_env ?p []) = Inr ()"
    by code_simp
  then have run: "process_patient example_env ?p [] = (Inr (), snd (process_patient example_env ?p []))"
    by (metis prod.collapse)
  have birthday: "getitem ?p ''birthday'' = Inr (PDate 1950)"
    by (simp add: example_patient_def getitem_def)
  have age: "years_since example_env (PDate 1950) = Inr 74"
    by (simp add: example_env_def)
  have gate: "engine_execute example_env ''rules_context.deal_breakers.rules''
             (setitem ''age'' (PInt 74) ?p) [] = Inr (\<lparr>passed = 0, actions = []\<rparr>, [])"
    by (simp add: example_env_def example_patient_def rules_engine_execute_def
          example_rules_def matching_def int_field_def)
  have refs: "getitem ?p ''pnr'' = Inr (PStr ''AB'')" "iter_items (PStr ''AB'') = Inr [PStr ''A'', PStr ''B'']"
    by (simp_all add: example_patient_def getitem_def)
  have first: "resolve_status example_env (PStr ''A'') = Inr 2"
    by (simp add: resolve_status_def example_env_def)
  have second: "resolve_status example_env (PStr ''B'') = Inr 1"
    by (simp add: resolve_status_def example_env_def)
  have picA: "fst (fetch_pic_from_database example_env (PStr ''A'') []) = Inr (PStr ''PIC-A'')"
    by (simp add: example_env_def example_record_def pic_of_json_def getitem_def)
  have picB: "fst (fetch_pic_from_database example_env (PStr ''B'') []) = Inr (PStr ''PIC-B'')"
    by (simp add: example_env_def example_record_def pic_of_json_def getitem_def)
  from last_reference_overwrites [OF run birthday age gate _ refs first second]
  show ?thesis using ok first second picA picB by auto
qed

text \<open>
  C8. Missing or empty credentials abort the run before any patient is processed.
  The code does so for an empty string only: with both variables absent from the
  environment the credentials are None, \<^verbatim>\<open>login\<close> posts them twice and the
  patient is processed.
\<close>

theorem absent_credentials_do_not_abort:
  "fst (main example_env Map.empty example_mapping [example_row ''Ada'' ''2014'' ''A''] []) = Inr ()
   \<and> take 2 (snd (main example_env Map.empty example_mapping [example_row ''Ada'' ''2014'' ''A''] []))
     = [Post_login PNone PNone, Post_login PNone PNone]
   \<and> map input_fields
       (map fst (records (snd (main example_env Map.empty example_mapping
                                 [example_row ''Ada'' ''2014'' ''A''] []))))
     = [input_fields (example_patient ''Ada'' 2014 (PStr ''A''))]"
  by code_simp

text \<open>
  C9. \<^verbatim>\<open>_fetch_pic_from_database\<close> takes the first element of the \<^verbatim>\<open>"Data"\<close>
  list of the response whatever follows it: on an empty list it raises IndexError
  (it does not answer None), and whenever it returns an identifier the list was not
  empty and the identifier is the \<^verbatim>\<open>"NumeroAuth"\<close> of its first element.
\<close>

theorem fetch_pic_takes_first_record:
  assumes "post_json env pnr = Inr j"
  shows "(\<forall>recs. subscript_key j ''Data'' = Inr (PList recs) \<longrightarrow>
            fst (fetch_pic_from_database env pnr tr) =
              (case recs of [] \<Rightarrow> Inl IndexError | r # rest \<Rightarrow> subscript_key r ''NumeroAuth''))
       \<and> (\<forall>pic. fst (fetch_pic_from_database env pnr tr) = Inr pic \<longrightarrow>
            (\<exists>r rest. subscript_key j ''Data'' = Inr (PList (r # rest))
                     \<and> subscript_key r ''NumeroAuth'' = Inr pic))"
proof -
  have run: "fst (fetch_pic_from_database env pnr tr) = pic_of_json j"
    using assms by (simp add: fetch_pic_from_database_def then_io_def call_def lift_def)
  have first: "\<exists>r rest. d = PList (r # rest) \<and> subscript_key r ''NumeroAuth'' = Inr pic"
    if "subscript_0 d = Inr r" "subscript_key r ''NumeroAuth'' = Inr pic" for d r pic
    using that by (cases d rule: subscript_0.cases) auto
  show ?thesis
    unfolding run pic_of_json_def
    by (auto split: list.splits dest: first)
qed

theorem fetch_pic_takes_first_record_witness:
  "post_json example_env (PStr ''Z'') = Inr (PDict [(''Data'', PList [])])
   \<and> fst (fetch_pic_from_database example_env (PStr ''Z'') []) = Inl IndexError"
proof -
  have h: "post_json example_env (PStr ''Z'') = Inr (PDict [(''Data'', PList [])])"
    by (simp add: example_env_def)
  from fetch_pic_takes_first_record [OF h, of "[]"] h show ?thesis
    by (simp add: getitem_def)
qed

text \<open>
  C10 as stated fails: an entry of unknown type before the array entry raises
  ValueError first.
\<close>

theorem unknown_type_before_array_raises_value_error:
  "parse_input_from_hospital example_env
     [\<lparr>coltype = ''int'', var_name = ''age'', colname = ''age'', date_format = None\<rparr>,
      \<lparr>coltype = ''array'', var_name = ''pnr'', colname = ''pnr'', date_format = None\<rparr>]
     [example_row ''Ada'' ''2014'' ''A''] = Inl ValueError"
  by (simp add: parse_item_def)

text \<open>
  C10, as the code has it. With an entry of coltype \<^verbatim>\<open>"array"\<close> in the mapping and
  at least one row, \<^verbatim>\<open>_parse_input_from_hospital\<close> raises on the first row and
  returns no patient list; the exception is the NameError of the array entry
  whenever the entries before it parse on that row, and otherwise the exception
  with which those entries fail, which is that of the first entry of the mapping
  that fails on the row.
\<close>

theorem array_column_never_parses:
  assumes "item \<in> set mapping" and "coltype item = ''array''" and "rows = row # others"
  shows "(\<exists>e. parse_input_from_hospital env mapping rows = Inl e)
       \<and> (\<forall>before after d.
            mapping = before @ item # after \<longrightarrow> parse_row env row before [] = Inr d \<longrightarrow>
            parse_input_from_hospital env mapping rows = Inl NameError)
       \<and> (\<forall>before after e.
            mapping = before @ item # after \<longrightarrow> parse_row env row before [] = Inl e \<longrightarrow>
            parse_input_from_hospital env mapping rows = Inl e)
       \<and> (\<forall>earlier failing later d e.
            mapping = earlier @ failing # later \<longrightarrow> parse_row env row earlier [] = Inr d \<longrightarrow>
            parse_item env row failing d = Inl e \<longrightarrow>
            parse_input_from_hospital env mapping rows = Inl e)"
proof (intro conjI allI impI)
  from parse_row_array [OF assms(1,2)] obtain e where "parse_row env row mapping [] = Inl e"
    by blast
  with assms(3) show "\<exists>e. parse_input_from_hospital env mapping rows = Inl e"
    by simp
next
  fix before after d
  assume "mapping = before @ item # after" "parse_row env row before [] = Inr d"
  with assms(2,3) show "parse_input_from_hospital env mapping rows = Inl NameError"
    by (simp add: parse_row_append parse_item_array)
next
  fix before after e
  assume "mapping = before @ item # after" "parse_row env row before [] = Inl e"
  with assms(3) show "parse_input_from_hospital env mapping rows = Inl e"
    by (simp add: parse_row_append)
next
  fix earlier failing later d e
  assume "mapping = earlier @ failing # later" "parse_row env row earlier [] = Inr d"
    "parse_item env row failing d = Inl e"
  with assms(3) show "parse_input_from_hospital env mapping rows = Inl e"
    by (simp add: parse_row_append)
qed

theorem array_column_never_parses_witness:
  "\<lparr>coltype = ''array'', var_name = ''pnr'', colname = ''pnr'', date_format = None\<rparr>
     \<in> set (butlast example_mapping @
          [\<lparr>coltype = ''array'', var_name = ''pnr'', colname = ''pnr'', date_format = None\<rparr>])
   \<and> parse_row example_env (example_row ''Ada'' ''2014'' ''A'') (butlast example_mapping) []
       = Inr (butlast (example_patient ''Ada'' 2014 (PStr ''A'')))
   \<and> parse_input_from_hospital example_env
         (butlast example_mapping @
          [\<lparr>coltype = ''array'', var_name = ''pnr'', colname = ''pnr'', date_format = None\<rparr>])
         [example_row ''Ada'' ''2014'' ''A''] = Inl NameError
   \<and> parse_row example_env (example_row ''Ada'' ''2014'' ''A'')
         [\<lparr>coltype = ''int'', var_name = ''age'', colname = ''age'', date_format = None\<rparr>] []
       = Inl ValueError
   \<and> parse_input_from_hospital example_env
         [\<lparr>coltype = ''int'', var_name = ''age'', colname = ''age'', date_format = None\<rparr>,
          \<lparr>coltype = ''array'', var_name = ''pnr'', colname = ''pnr'', date_format = None\<rparr>]
         [example_row ''Ada'' ''2014'' ''A''] = Inl ValueError"
proof -
  let ?item = "\<lparr>coltype = ''array'', var_name = ''pnr'', colname = ''pnr'', date_format = None\<rparr>"
  let ?int = "\<lparr>coltype = ''int'', var_name = ''age'', colname = ''age'', date_format = None\<rparr>"
  let ?row = "example_row ''Ada'' ''2014'' ''A''"
  have member: "?item \<in> set (butlast example_mapping @ [?item])"
    by simp
  have array: "coltype ?item = ''array''"
    by simp
  have before: "parse_row example_env ?row (butlast example_mapping) []
                  = Inr (butlast (example_patient ''Ada'' 2014 (PStr ''A'')))"
    by (simp add: example_mapping_def string_column_def parse_item_def example_row_def
          example_patient_def example_env_def getitem_def)
  from array_column_never_parses [OF member array, of "[?row]" ?row "[]" example_env]
  have "\<forall>before after d.
          butlast example_mapping @ [?item] = before @ ?item # after \<longrightarrow>
          parse_row example_env ?row before [] = Inr d \<longrightarrow>
          parse_input_from_hospital example_env (butlast example_mapping @ [?item]) [?row]
            = Inl NameError"
    by simp
  from this [rule_format, of "butlast example_mapping" "[]", OF _ before]
  have name_error: "parse_input_from_hospital example_env (butlast example_mapping @ [?item]) [?row]
            = Inl NameError"
    by simp
  have member': "?item \<in> set [?int, ?item]"
    by simp
  have fails: "parse_row example_env ?row [?int] [] = Inl ValueError"
    by (simp add: parse_item_def)
  have first_fails: "parse_item example_env ?row ?int [] = Inl ValueError"
    by (simp add: parse_item_def)
  from array_column_never_parses [OF member' array, of "[?row]" ?row "[]" example_env]
  have otherwise: "\<forall>before after e.
          [?int, ?item] = before @ ?item # after \<longrightarrow>
          parse_row example_env ?row before [] = Inl e \<longrightarrow>
          parse_input_from_hospital example_env [?int, ?item] [?row] = Inl e"
    and first: "\<forall>earlier failing later d e.
          [?int, ?item] = earlier @ failing # later \<longrightarrow>
          parse_row example_env ?row earlier [] = Inr d \<longrightarrow>
          parse_item example_env ?row failing d = Inl e \<longrightarrow>
          parse_input_from_hospital example_env [?int, ?item] [?row] = Inl e"
    by simp_all
  from otherwise [rule_format, of "[?int]" "[]", OF _ fails]
    first [rule_format, of "[]" ?int "[?item]" "[]" ValueError, OF _ _ first_fails]
  have value_error: "parse_input_from_hospital example_env [?int, ?item] [?row] = Inl ValueError"
    by simp
  from member before name_error fails value_error show ?thesis
    by simp
qed

end
